theory Spec2Isabelle
  imports Main "HOL-Library.Word"
begin

unbundle bit_operations_syntax

section \<open>Strings of the source language\<close>

text \<open>
  A string of the source is a sequence of UTF-16 code units. String literals of the
  source are ASCII; \<open>lit\<close> embeds them.
\<close>

type_synonym jsstring = "16 word list"

definition lit :: "string \<Rightarrow> jsstring" where
  "lit s = map of_char s"

text \<open>\<^verbatim>\<open>s.startsWith(sub)\<close> and \<^verbatim>\<open>s.includes(sub)\<close>: substring search.\<close>

fun startsWith :: "jsstring \<Rightarrow> jsstring \<Rightarrow> bool" where
  "startsWith s [] = True"
| "startsWith [] (y # ys) = False"
| "startsWith (x # xs) (y # ys) = (x = y \<and> startsWith xs ys)"

fun includes_str :: "jsstring \<Rightarrow> jsstring \<Rightarrow> bool" where
  "includes_str [] sub = (sub = [])"
| "includes_str (x # xs) sub = (startsWith (x # xs) sub \<or> includes_str xs sub)"

text \<open>
  \<^verbatim>\<open>s.trim()\<close> removes leading and trailing white space and line terminators. These are
  the code points TAB, VT, FF, SP, NBSP, ZWNBSP, the Unicode space separators, and
  LF, CR, LS, PS; all of them are single code units.
\<close>

definition whiteSpace :: "16 word list" where
  "whiteSpace =
     [0x0009, 0x000A, 0x000B, 0x000C, 0x000D, 0x0020, 0x00A0, 0x1680,
      0x2000, 0x2001, 0x2002, 0x2003, 0x2004, 0x2005, 0x2006, 0x2007,
      0x2008, 0x2009, 0x200A, 0x2028, 0x2029, 0x202F, 0x205F, 0x3000, 0xFEFF]"

definition isWhiteSpace :: "16 word \<Rightarrow> bool" where
  "isWhiteSpace c = (c \<in> set whiteSpace)"

definition trim :: "jsstring \<Rightarrow> jsstring" where
  "trim s = rev (dropWhile isWhiteSpace (rev (dropWhile isWhiteSpace s)))"

section \<open>The hash of the token\<close>

text \<open>
  \<^verbatim>\<open>md5.hash(str)\<close> of the library renders the four 32-bit words of the digest in
  hexadecimal, each word byte by byte from the least significant byte, each byte as two
  lower-case digits. The digest itself is a parameter of the model (\<open>md51\<close> below).
\<close>

definition hex_chr :: "jsstring" where
  "hex_chr = lit ''0123456789abcdef''"

definition rhex_byte :: "32 word \<Rightarrow> nat \<Rightarrow> jsstring" where
  "rhex_byte n j =
     [hex_chr ! unat (drop_bit (j * 8 + 4) n AND 0x0F),
      hex_chr ! unat (drop_bit (j * 8) n AND 0x0F)]"

definition rhex :: "32 word \<Rightarrow> jsstring" where
  "rhex n = concat (map (rhex_byte n) [0, 1, 2, 3])"

definition hex :: "32 word list \<Rightarrow> jsstring" where
  "hex x = concat (map rhex x)"

text \<open>
  The environment of a call: the digest function of the hashing library and the
  rendering of a clock reading (milliseconds) by \<^verbatim>\<open>`${new Date()}`\<close>, which depends on the
  time zone of the process.
\<close>

record env =
  md51 :: "jsstring \<Rightarrow> 32 word list"
  dateString :: "int \<Rightarrow> jsstring"

definition md5_hash :: "env \<Rightarrow> jsstring \<Rightarrow> jsstring" where
  "md5_hash e str = hex (md51 e str)"

section \<open>The store\<close>

text \<open>\<^verbatim>\<open>Model.SessionToken\<close>: the fields of a session hash.\<close>

record SessionToken =
  createdAt :: int
  isRevoked :: bool
  userEmail :: jsstring

text \<open>
  Modelled from the spec: the store client (\<^verbatim>\<open>../redis/client\<close>) is a module
  outside this file. The store holds hashes, each with the time to live (in seconds) last
  set for its key, if any, and sorted sets. The keys are typed as the code's own type
  annotations say: a hash read yields a \<open>SessionToken\<close>, a sorted-set read yields
  numbers. A sorted set is the list of its (score, member) pairs, ascending by score and,
  for equal scores, by member, every member occurring once; the empty list is the absent
  key. The code gives a time to live to hash keys only.
\<close>

record store =
  hashes :: "jsstring \<rightharpoonup> (SessionToken \<times> int option)"
  zsets :: "jsstring \<Rightarrow> (int \<times> int) list"

definition empty_store :: store where
  "empty_store = \<lparr>hashes = Map.empty, zsets = (\<lambda>k. [])\<rparr>"

text \<open>\<open>HMSET\<close> with all three fields: the hash is replaced, a time to live is kept.\<close>

definition hmset :: "jsstring \<Rightarrow> SessionToken \<Rightarrow> store \<Rightarrow> store" where
  "hmset k v s =
     (case hashes s k of
        None \<Rightarrow> s\<lparr>hashes := (hashes s)(k \<mapsto> (v, None))\<rparr>
      | Some (old, t) \<Rightarrow> s\<lparr>hashes := (hashes s)(k \<mapsto> (v, t))\<rparr>)"

text \<open>\<open>HGETALL\<close>: the client returns null for an absent key.\<close>

definition hgetall :: "jsstring \<Rightarrow> store \<Rightarrow> SessionToken option" where
  "hgetall k s = map_option fst (hashes s k)"

text \<open>
  \<open>EXPIRE\<close> on a hash key: nothing happens for an absent key; a time to live that is not
  positive deletes the key.
\<close>

definition expire :: "jsstring \<Rightarrow> int \<Rightarrow> store \<Rightarrow> store" where
  "expire k secs s =
     (case hashes s k of
        None \<Rightarrow> s
      | Some (v, t) \<Rightarrow>
          if secs \<le> 0 then s\<lparr>hashes := (hashes s)(k := None)\<rparr>
          else s\<lparr>hashes := (hashes s)(k \<mapsto> (v, Some secs))\<rparr>)"

text \<open>The order of a sorted set: by score, then by member.\<close>

fun zless :: "int \<times> int \<Rightarrow> int \<times> int \<Rightarrow> bool" where
  "zless (s1, m1) (s2, m2) = (s1 < s2 \<or> (s1 = s2 \<and> m1 < m2))"

fun zinsert :: "int \<times> int \<Rightarrow> (int \<times> int) list \<Rightarrow> (int \<times> int) list" where
  "zinsert e [] = [e]"
| "zinsert e (x # xs) = (if zless e x then e # x # xs else x # zinsert e xs)"

text \<open>\<open>ZADD key score member\<close>: the member is added, or moved to its new score.\<close>

definition zadd :: "jsstring \<Rightarrow> int \<Rightarrow> int \<Rightarrow> store \<Rightarrow> store" where
  "zadd k score member s =
     s\<lparr>zsets := (zsets s)
        (k := zinsert (score, member) (filter (\<lambda>e. snd e \<noteq> member) (zsets s k)))\<rparr>"

text \<open>\<open>ZREMRANGEBYSCORE key min max\<close>: both bounds are inclusive.\<close>

definition zremrangebyscore :: "jsstring \<Rightarrow> int \<Rightarrow> int \<Rightarrow> store \<Rightarrow> store" where
  "zremrangebyscore k mn mx s =
     s\<lparr>zsets := (zsets s)
        (k := filter (\<lambda>e. \<not> (mn \<le> fst e \<and> fst e \<le> mx)) (zsets s k))\<rparr>"

text \<open>
  A range of ranks \<open>start\<close> .. \<open>stop\<close> of a set of \<open>n\<close> elements: a negative index counts
  from the end, the range is clipped to the set, and it may be empty.
\<close>

definition rank_range :: "nat \<Rightarrow> int \<Rightarrow> int \<Rightarrow> (nat \<times> nat) option" where
  "rank_range n start stop =
     (let st0 = (if start < 0 then int n + start else start);
          en0 = (if stop < 0 then int n + stop else stop);
          st = (if st0 < 0 then 0 else st0)
      in if st > en0 \<or> st \<ge> int n then None
         else Some (nat st, nat (if en0 \<ge> int n then int n - 1 else en0)))"

text \<open>\<open>ZRANGE key start stop\<close>: the members at these ranks, in the order of the set.\<close>

definition zrange :: "jsstring \<Rightarrow> int \<Rightarrow> int \<Rightarrow> store \<Rightarrow> int list" where
  "zrange k start stop s =
     (case rank_range (length (zsets s k)) start stop of
        None \<Rightarrow> []
      | Some (a, b) \<Rightarrow> map snd (take (b - a + 1) (drop a (zsets s k))))"

text \<open>\<open>ZREMRANGEBYRANK key start stop\<close>: the elements at these ranks are removed.\<close>

definition zremrangebyrank :: "jsstring \<Rightarrow> int \<Rightarrow> int \<Rightarrow> store \<Rightarrow> store" where
  "zremrangebyrank k start stop s =
     (case rank_range (length (zsets s k)) start stop of
        None \<Rightarrow> s
      | Some (a, b) \<Rightarrow>
          s\<lparr>zsets := (zsets s)(k := take a (zsets s k) @ drop (b + 1) (zsets s k))\<rparr>)"

text \<open>
  A pipeline is the list of its commands; \<^verbatim>\<open>exec\<close> runs them in order and returns their
  results in that order. The code pipelines range reads only. \<^verbatim>\<open>exec\<close> of a pipeline
  with no command raises the error \<^verbatim>\<open>Pipeline is empty\<close>, which the caller does not catch.
\<close>

datatype command = ZRange jsstring int int

datatype error = PipelineIsEmpty

fun pipeline_run :: "command list \<Rightarrow> store \<Rightarrow> int list list \<times> store" where
  "pipeline_run [] s = ([], s)"
| "pipeline_run (ZRange k start stop # cs) s =
     (let r = zrange k start stop s; (rs, s') = pipeline_run cs s in (r # rs, s'))"

definition pipeline_exec :: "command list \<Rightarrow> store \<Rightarrow> error + int list list \<times> store" where
  "pipeline_exec cs s = (if cs = [] then Inl PipelineIsEmpty else Inr (pipeline_run cs s))"

section \<open>AccessControlDAL\<close>

record AccessControlDAL =
  emailOrIP :: jsstring
  isIP :: bool

text \<open>
  The constructor: the second argument is optional and defaults to
  \<^verbatim>\<open>!emailOrIP.includes('@')\<close>.
\<close>

definition new_AccessControlDAL :: "jsstring \<Rightarrow> bool option \<Rightarrow> AccessControlDAL" where
  "new_AccessControlDAL e arg =
     \<lparr>emailOrIP = e,
      isIP = (case arg of None \<Rightarrow> \<not> includes_str e (lit ''@'') | Some b \<Rightarrow> b)\<rparr>"

text \<open>
  \<^verbatim>\<open>newSessionToken\<close>. \<open>d\<close> is the clock reading of \<^verbatim>\<open>new Date()\<close>, \<open>now\<close> the one of
  \<^verbatim>\<open>Date.now()\<close>. The result null is \<open>None\<close>.
\<close>

definition newSessionToken ::
  "env \<Rightarrow> AccessControlDAL \<Rightarrow> int \<Rightarrow> int \<Rightarrow> store \<Rightarrow> jsstring option \<times> store" where
  "newSessionToken e dal d now s =
     (if isIP dal then (None, s)
      else
        let token = md5_hash e (emailOrIP dal @ lit '':'' @ dateString e d);
            sessionToken = \<lparr>createdAt = now, isRevoked = False, userEmail = emailOrIP dal\<rparr>;
            s1 = hmset (lit ''sessionToken:'' @ token) sessionToken s;
            s2 = expire (lit ''sessionToken:'' @ token) (24 * 60 * 60) s1
        in (Some token, s2))"

text \<open>\<^verbatim>\<open>validateSessionToken\<close>.\<close>

definition validateSessionToken ::
  "AccessControlDAL \<Rightarrow> jsstring \<Rightarrow> store \<Rightarrow> jsstring option \<times> store" where
  "validateSessionToken dal token s =
     (if isIP dal then (None, s)
      else
        case hgetall (lit ''sessionToken:'' @ trim token) s of
          None \<Rightarrow> (None, s)
        | Some sessionToken \<Rightarrow>
            if isRevoked sessionToken then (None, s)
            else (Some (userEmail sessionToken),
                  expire (lit ''sessionToken:'' @ trim token) (24 * 60 * 60) s))"

text \<open>
  \<^verbatim>\<open>getRequestsTimeStamp\<close>. \<open>plan\<close> is what \<^verbatim>\<open>user.getPlan()\<close> returned (the user model is
  another module), \<open>now\<close> the reading of \<^verbatim>\<open>Date.now()\<close>.
\<close>

definition getRequestsTimeStamp ::
  "AccessControlDAL \<Rightarrow> jsstring \<Rightarrow> int \<Rightarrow> store \<Rightarrow> int list \<times> store" where
  "getRequestsTimeStamp dal plan now s =
     (let key = lit ''limit:'' @ emailOrIP dal;
          s1 = (if plan = lit ''free''
                then zremrangebyscore key 0 (now - 60 * 60 * 1000) s
                else zremrangebyscore key 0 (now - 3 * 60 * 60 * 1000) s)
      in (zrange key 0 (- 1) s1, s1))"

text \<open>\<^verbatim>\<open>newRequest\<close>; \<open>timestamp\<close> is the reading of \<^verbatim>\<open>Date.now()\<close>.\<close>

definition newRequest :: "AccessControlDAL \<Rightarrow> int \<Rightarrow> store \<Rightarrow> int \<times> store" where
  "newRequest dal timestamp s =
     (let key = lit ''limit:'' @ emailOrIP dal
      in (timestamp, zadd key timestamp timestamp s))"

text \<open>
  \<^verbatim>\<open>getRequestsTimeStampsOf\<close>: one range read per identity, appended to a pipeline. An error
  of \<^verbatim>\<open>exec\<close> is the error of the call.
\<close>

definition getRequestsTimeStampsOf ::
  "jsstring list \<Rightarrow> store \<Rightarrow> error + int list list \<times> store" where
  "getRequestsTimeStampsOf ids s =
     (let pipeline = foldl (\<lambda>p e. p @ [ZRange (lit ''limit:'' @ e) 0 (- 1)]) [] ids
      in pipeline_exec pipeline s)"

text \<open>\<^verbatim>\<open>resetLimit\<close>.\<close>

definition resetLimit :: "AccessControlDAL \<Rightarrow> store \<Rightarrow> int list \<times> store" where
  "resetLimit dal s =
     (let key = lit ''limit:'' @ emailOrIP dal;
          s1 = zremrangebyrank key 0 (- 1) s
      in (zrange key 0 (- 1) s1, s1))"

text \<open>A run of \<^verbatim>\<open>newRequest\<close> calls, one at each clock reading of the list, in order.\<close>

fun newRequests :: "AccessControlDAL \<Rightarrow> int list \<Rightarrow> store \<Rightarrow> int list \<times> store" where
  "newRequests dal [] s = ([], s)"
| "newRequests dal (t # ts) s =
     (let (r, s1) = newRequest dal t s; (rs, s2) = newRequests dal ts s1 in (r # rs, s2))"

section \<open>Notions used to state the properties\<close>

text \<open>
  The invariant of a RequestTimestamp set: every member is stored with itself as score,
  and the members ascend strictly in the order of the set.
\<close>

definition timestamp_set :: "(int \<times> int) list \<Rightarrow> bool" where
  "timestamp_set zs = (sorted_wrt (<) (map snd zs) \<and> list_all (\<lambda>e. fst e = snd e) zs)"

text \<open>
  Revocation is not an operation of the class: it is done on the store directly, by
  setting the field \<open>isRevoked\<close> of an existing session hash.
\<close>

definition revoke :: "jsstring \<Rightarrow> store \<Rightarrow> store" where
  "revoke k s =
     (case hashes s k of
        None \<Rightarrow> s
      | Some (v, t) \<Rightarrow> s\<lparr>hashes := (hashes s)(k \<mapsto> (v\<lparr>isRevoked := True\<rparr>, t))\<rparr>)"

text \<open>
  An environment and a store for the concrete instances below. The digest is a stand-in
  (not MD5), and so is the rendering of the clock. The store holds a valid session, a
  revoked one, and three request timestamps of the identity \<^verbatim>\<open>a@b.c\<close>.
\<close>

definition demo_env :: env where
  "demo_env =
     \<lparr>md51 = (\<lambda>str. [word_of_nat (length str), 0x67452301, 0xEFCDAB89, 0x98BADCFE]),
      dateString = (\<lambda>t. [word_of_int (t div 1000)])\<rparr>"

definition demo_store :: store where
  "demo_store =
     \<lparr>hashes =
        [lit ''sessionToken:abc'' \<mapsto>
           (\<lparr>createdAt = 1000, isRevoked = False, userEmail = lit ''a@b.c''\<rparr>, Some 500),
         lit ''sessionToken:xyz'' \<mapsto>
           (\<lparr>createdAt = 2000, isRevoked = True, userEmail = lit ''a@b.c''\<rparr>, Some 700)],
      zsets = (\<lambda>k. [])
        (lit ''limit:a@b.c'' := [(1000, 1000), (2000, 2000), (5000000, 5000000)])\<rparr>"

section \<open>Facts about strings and the hash\<close>

lemma trim_no_whiteSpace:
  assumes "\<forall>c\<in>set xs. \<not> isWhiteSpace c"
  shows "trim xs = xs"
proof -
  have "dropWhile isWhiteSpace xs = xs"
    using assms by (cases xs) auto
  moreover have "dropWhile isWhiteSpace (rev xs) = rev xs"
    using assms by (cases "rev xs") (auto dest: arg_cong [where f = set])
  ultimately show ?thesis by (simp add: trim_def)
qed

lemma trim_idem: "trim (trim s) = trim s"
proof -
  define ys where "ys = dropWhile isWhiteSpace s"
  define zs where "zs = dropWhile isWhiteSpace (rev ys)"
  have t: "trim s = rev zs" by (simp add: trim_def ys_def zs_def)
  have "rev ys = takeWhile isWhiteSpace (rev ys) @ zs"
    by (simp add: zs_def)
  then have ys: "ys = rev zs @ rev (takeWhile isWhiteSpace (rev ys))"
    by (metis rev_append rev_rev_ident)
  have front: "dropWhile isWhiteSpace (rev zs) = rev zs"
  proof (cases "zs = []")
    case True
    then show ?thesis by simp
  next
    case False
    then have "hd (rev zs) = hd ys" using ys by (metis hd_append2 rev_is_Nil_conv)
    moreover have "ys \<noteq> []" using ys False by auto
    then have "\<not> isWhiteSpace (hd ys)" unfolding ys_def by (rule hd_dropWhile)
    ultimately show ?thesis using False by (cases "rev zs") auto
  qed
  have "trim (rev zs) = rev (dropWhile isWhiteSpace zs)"
    by (simp add: trim_def front)
  also have "\<dots> = rev zs" by (simp add: zs_def)
  finally show ?thesis by (simp add: t)
qed

lemma unat_nibble: "unat ((x :: 32 word) AND 0x0F) < 16"
proof -
  have "x AND 0x0F \<le> 0x0F" by (rule word_and_le1)
  then show ?thesis by (simp add: word_le_nat_alt)
qed

lemma hex_chr_not_ws: "c \<in> set hex_chr \<Longrightarrow> \<not> isWhiteSpace c"
  by (auto simp add: hex_chr_def lit_def isWhiteSpace_def whiteSpace_def) 

lemma length_hex_chr: "length hex_chr = 16"
  by (simp add: hex_chr_def lit_def)

lemma rhex_byte_subset: "set (rhex_byte n j) \<subseteq> set hex_chr"
  by (simp add: rhex_byte_def unat_nibble length_hex_chr)

lemma hex_not_ws: "c \<in> set (hex x) \<Longrightarrow> \<not> isWhiteSpace c"
  using rhex_byte_subset hex_chr_not_ws by (fastforce simp add: hex_def rhex_def)

lemma trim_md5_hash: "trim (md5_hash e str) = md5_hash e str"
  by (simp add: md5_hash_def trim_no_whiteSpace hex_not_ws)

section \<open>Facts about the store and the constructor\<close>

lemma isIP_new: "isIP (new_AccessControlDAL E None) = (\<not> includes_str E (lit ''@''))"
  by (simp add: new_AccessControlDAL_def)

lemma emailOrIP_new: "emailOrIP (new_AccessControlDAL E arg) = E"
  by (simp add: new_AccessControlDAL_def)

lemma hgetall_hmset: "hgetall k (hmset k v s) = Some v"
  by (simp add: hgetall_def hmset_def split: option.splits)

lemma hgetall_expire: "0 < secs \<Longrightarrow> hgetall k (expire k' secs s) = hgetall k s"
  by (auto simp add: hgetall_def expire_def split: option.splits)

lemma hashes_new:
  "0 < secs \<Longrightarrow> hashes (expire k secs (hmset k v s)) = (hashes s)(k \<mapsto> (v, Some secs))"
  by (auto simp add: expire_def hmset_def split: option.splits)

lemma zsets_new: "zsets (expire k secs (hmset k v s)) = zsets s"
  by (auto simp add: expire_def hmset_def split: option.splits)

lemma rank_range_all: "rank_range n 0 (- 1) = (if n = 0 then None else Some (0, n - 1))"
  by (auto simp add: rank_range_def Let_def)

lemma zrange_all: "zrange k 0 (- 1) s = map snd (zsets s k)"
  by (cases "zsets s k") (simp_all add: zrange_def rank_range_all)

lemma zremrangebyrank_all:
  "zremrangebyrank k 0 (- 1) s = s\<lparr>zsets := (zsets s)(k := [])\<rparr>"
proof (cases "zsets s k")
  case Nil
  then have "(zsets s)(k := []) = zsets s" by (simp add: fun_upd_idem)
  with Nil show ?thesis by (simp add: zremrangebyrank_def rank_range_all)
next
  case (Cons z zs)
  then show ?thesis by (simp add: zremrangebyrank_def rank_range_all)
qed

lemma getRequestsTimeStamp_eq:
  "getRequestsTimeStamp dal plan now s =
     (map snd (filter (\<lambda>e. \<not> (0 \<le> fst e \<and>
          fst e \<le> now - (if plan = lit ''free'' then 60 * 60 * 1000 else 3 * 60 * 60 * 1000)))
        (zsets s (lit ''limit:'' @ emailOrIP dal))),
      s\<lparr>zsets := (zsets s)(lit ''limit:'' @ emailOrIP dal :=
        filter (\<lambda>e. \<not> (0 \<le> fst e \<and>
          fst e \<le> now - (if plan = lit ''free'' then 60 * 60 * 1000 else 3 * 60 * 60 * 1000)))
        (zsets s (lit ''limit:'' @ emailOrIP dal)))\<rparr>)"
  by (simp add: getRequestsTimeStamp_def Let_def zrange_all zremrangebyscore_def)

lemma map_snd_filter_timestamps:
  "list_all (\<lambda>e. fst e = snd e) zs \<Longrightarrow>
     map snd (filter (\<lambda>e. P (fst e)) zs) = filter P (map snd zs)"
  by (induction zs) auto

lemma sorted_wrt_filter_less:
  "sorted_wrt (<) (xs :: int list) \<Longrightarrow> sorted_wrt (<) (filter P xs)"
  by (induction xs) auto

lemma pipeline_build: "foldl (\<lambda>p e. p @ [f e]) acc ids = acc @ map f ids"
  by (induction ids arbitrary: acc) auto

lemma pipeline_run_ranges:
  "pipeline_run (map (\<lambda>e. ZRange (g e) 0 (- 1)) ids) s =
     (map (\<lambda>e. map snd (zsets s (g e))) ids, s)"
  by (induction ids) (auto simp add: zrange_all)

lemma getRequestsTimeStampsOf_eq:
  "getRequestsTimeStampsOf ids s =
     (if ids = [] then Inl PipelineIsEmpty
      else Inr (map (\<lambda>e. map snd (zsets s (lit ''limit:'' @ e))) ids, s))"
  by (simp add: getRequestsTimeStampsOf_def pipeline_build pipeline_exec_def pipeline_run_ranges)

lemma zless_asym: "zless a b \<Longrightarrow> \<not> zless b a"
  by (cases a; cases b) auto

lemma zinsert_last: "\<forall>x\<in>set xs. zless x e \<Longrightarrow> zinsert e xs = xs @ [e]"
  by (induction xs) (auto dest: zless_asym)

lemma newRequests_fst: "fst (newRequests dal ts s) = ts"
  by (induction ts arbitrary: s) (simp_all add: newRequest_def split_beta)

lemma newRequests_zsets:
  assumes "sorted_wrt (<) ts"
    and "\<forall>e\<in>set (zsets s (lit ''limit:'' @ emailOrIP dal)). \<forall>t\<in>set ts. fst e < t \<and> snd e < t"
  shows "zsets (snd (newRequests dal ts s)) (lit ''limit:'' @ emailOrIP dal) =
           zsets s (lit ''limit:'' @ emailOrIP dal) @ map (\<lambda>t. (t, t)) ts"
  using assms
proof (induction ts arbitrary: s)
  case Nil
  then show ?case by simp
next
  case (Cons t ts)
  let ?k = "lit ''limit:'' @ emailOrIP dal"
  let ?s1 = "zadd ?k t t s"
  have keep: "filter (\<lambda>e. snd e \<noteq> t) (zsets s ?k) = zsets s ?k"
    using Cons.prems(2) by (auto simp add: filter_id_conv)
  have "\<forall>x\<in>set (zsets s ?k). zless x (t, t)"
    using Cons.prems(2) by auto
  then have z1: "zsets ?s1 ?k = zsets s ?k @ [(t, t)]"
    by (simp add: zadd_def keep zinsert_last)
  have "zsets (snd (newRequests dal ts ?s1)) ?k = zsets ?s1 ?k @ map (\<lambda>t. (t, t)) ts"
  proof (rule Cons.IH)
    show "sorted_wrt (<) ts" using Cons.prems(1) by simp
    show "\<forall>e\<in>set (zsets ?s1 ?k). \<forall>u\<in>set ts. fst e < u \<and> snd e < u"
      using Cons.prems by (auto simp add: z1)
  qed
  then show ?case
    by (simp add: newRequest_def z1 split_beta)
qed

section \<open>The invariant of the request timestamps\<close>

text \<open>The operations of the class keep the invariant, and \<open>resetLimit\<close> establishes it.\<close>

lemma set_zinsert: "set (zinsert e xs) = insert e (set xs)"
  by (induction xs) auto

lemma timestamp_set_Nil: "timestamp_set []"
  by (simp add: timestamp_set_def)

lemma timestamp_set_filter: "timestamp_set zs \<Longrightarrow> timestamp_set (filter P zs)"
  by (induction zs) (auto simp add: timestamp_set_def)

lemma timestamp_set_zinsert:
  "timestamp_set zs \<Longrightarrow> t \<notin> snd ` set zs \<Longrightarrow> timestamp_set (zinsert (t, t) zs)"
proof (induction zs)
  case Nil
  then show ?case by (simp add: timestamp_set_def)
next
  case (Cons x xs)
  then show ?case
    by (cases x) (auto simp add: timestamp_set_def set_zinsert)
qed

lemma timestamp_set_newRequest:
  assumes "timestamp_set (zsets s (lit ''limit:'' @ emailOrIP dal))"
  shows "timestamp_set (zsets (snd (newRequest dal t s)) (lit ''limit:'' @ emailOrIP dal))"
proof -
  let ?zs = "filter (\<lambda>e. snd e \<noteq> t) (zsets s (lit ''limit:'' @ emailOrIP dal))"
  have "timestamp_set ?zs" using assms by (rule timestamp_set_filter)
  moreover have "t \<notin> snd ` set ?zs" by auto
  ultimately have "timestamp_set (zinsert (t, t) ?zs)" by (rule timestamp_set_zinsert)
  then show ?thesis by (simp add: newRequest_def zadd_def Let_def)
qed

lemma timestamp_set_getRequestsTimeStamp:
  assumes "timestamp_set (zsets s (lit ''limit:'' @ emailOrIP dal))"
  shows "timestamp_set
    (zsets (snd (getRequestsTimeStamp dal plan now s)) (lit ''limit:'' @ emailOrIP dal))"
  using assms by (simp add: getRequestsTimeStamp_eq timestamp_set_filter)

lemma timestamp_set_resetLimit:
  "timestamp_set (zsets (snd (resetLimit dal s)) (lit ''limit:'' @ emailOrIP dal))"
  by (simp add: resetLimit_def Let_def zremrangebyrank_all timestamp_set_Nil)

section \<open>The instances\<close>

lemma demo_email: "includes_str (lit ''a@b.c'') (lit ''@'')"
  by (simp add: lit_def)

lemma demo_email2: "includes_str (lit ''x@y.z'') (lit ''@'')"
  by (simp add: lit_def)

lemma demo_ip: "\<not> includes_str (lit ''10.0.0.1'') (lit ''@'')"
  by (simp add: lit_def)

lemma demo_token:
  "md5_hash demo_env (lit ''a@b.c'' @ lit '':'' @ dateString demo_env 1000) =
     lit ''070000000123456789abcdeffedcba98''"
  by (simp add: md5_hash_def demo_env_def hex_def rhex_def rhex_byte_def hex_chr_def lit_def
      drop_bit_eq_div)

lemma demo_limit: "zsets demo_store (lit ''limit:'' @ lit ''a@b.c'') =
    [(1000, 1000), (2000, 2000), (5000000, 5000000)]"
  by (simp add: demo_store_def lit_def)

lemma demo_limit_ip: "zsets demo_store (lit ''limit:'' @ lit ''10.0.0.1'') = []"
  by (simp add: demo_store_def lit_def)

section \<open>Session tokens\<close>

text \<open>
  C1. For every email identity \<open>E\<close> (a string that contains \<^verbatim>\<open>@\<close>), every store, every
  environment and all clock readings: \<open>newSessionToken\<close> returns a token and writes, under
  the key of that token, the session record with \<open>userEmail = E\<close> and \<open>isRevoked = False\<close>;
  \<open>validateSessionToken\<close>, called with that token on the resulting store, returns \<open>E\<close>. What
  it returns is the \<open>userEmail\<close> of the stored record and not the identity of the validating
  object: validation through the object of any other email identity \<open>E'\<close> returns \<open>E\<close> too.
\<close>

theorem C1_new_then_validate:
  assumes "includes_str E (lit ''@'')"
    and "includes_str E' (lit ''@'')"
  shows "\<exists>token s1.
           newSessionToken e (new_AccessControlDAL E None) d now s = (Some token, s1) \<and>
           hgetall (lit ''sessionToken:'' @ token) s1 =
             Some \<lparr>createdAt = now, isRevoked = False, userEmail = E\<rparr> \<and>
           fst (validateSessionToken (new_AccessControlDAL E None) token s1) = Some E \<and>
           fst (validateSessionToken (new_AccessControlDAL E' None) token s1) = Some E"
  using assms
  by (simp add: newSessionToken_def validateSessionToken_def isIP_new emailOrIP_new
      Let_def trim_md5_hash hgetall_expire hgetall_hmset)

text \<open>
  An instance: the identity \<^verbatim>\<open>a@b.c\<close> on the store of the instances; the token is validated
  through the issuing object and through the object of \<^verbatim>\<open>x@y.z\<close>, and a token that was not
  issued is not accepted on the same store.
\<close>

theorem C1_new_then_validate_witness:
  "includes_str (lit ''a@b.c'') (lit ''@'') \<and>
   includes_str (lit ''x@y.z'') (lit ''@'') \<and>
   fst (newSessionToken demo_env (new_AccessControlDAL (lit ''a@b.c'') None) 1000 1001 demo_store) =
     Some (lit ''070000000123456789abcdeffedcba98'') \<and>
   fst (validateSessionToken (new_AccessControlDAL (lit ''a@b.c'') None)
          (lit ''070000000123456789abcdeffedcba98'')
          (snd (newSessionToken demo_env (new_AccessControlDAL (lit ''a@b.c'') None)
             1000 1001 demo_store))) = Some (lit ''a@b.c'') \<and>
   fst (validateSessionToken (new_AccessControlDAL (lit ''x@y.z'') None)
          (lit ''070000000123456789abcdeffedcba98'')
          (snd (newSessionToken demo_env (new_AccessControlDAL (lit ''a@b.c'') None)
             1000 1001 demo_store))) = Some (lit ''a@b.c'') \<and>
   fst (validateSessionToken (new_AccessControlDAL (lit ''a@b.c'') None)
          (lit ''070000000123456789abcdeffedcba99'')
          (snd (newSessionToken demo_env (new_AccessControlDAL (lit ''a@b.c'') None)
             1000 1001 demo_store))) = None"
proof -
  from C1_new_then_validate [OF demo_email demo_email2, of demo_env 1000 1001 demo_store]
  obtain token s1 where
    n: "newSessionToken demo_env (new_AccessControlDAL (lit ''a@b.c'') None) 1000 1001 demo_store =
       (Some token, s1)"
    and v: "fst (validateSessionToken (new_AccessControlDAL (lit ''a@b.c'') None) token s1) =
       Some (lit ''a@b.c'')"
    and v2: "fst (validateSessionToken (new_AccessControlDAL (lit ''x@y.z'') None) token s1) =
       Some (lit ''a@b.c'')"
    by blast
  have f: "fst (newSessionToken demo_env (new_AccessControlDAL (lit ''a@b.c'') None) 1000 1001
      demo_store) = Some (lit ''070000000123456789abcdeffedcba98'')"
    using demo_email by (simp add: newSessionToken_def isIP_new emailOrIP_new Let_def demo_token)
  with n have tok: "token = lit ''070000000123456789abcdeffedcba98''" by simp
  have tr: "trim (lit ''070000000123456789abcdeffedcba99'') =
      lit ''070000000123456789abcdeffedcba99''"
    by (simp add: lit_def trim_def isWhiteSpace_def whiteSpace_def)
  have other: "hgetall (lit ''sessionToken:'' @ lit ''070000000123456789abcdeffedcba99'')
      (snd (newSessionToken demo_env (new_AccessControlDAL (lit ''a@b.c'') None)
         1000 1001 demo_store)) = None"
    using demo_email
    by (simp add: newSessionToken_def isIP_new emailOrIP_new Let_def demo_token hgetall_def
        hashes_new) (simp add: demo_store_def lit_def)
  have u: "fst (validateSessionToken (new_AccessControlDAL (lit ''a@b.c'') None)
      (lit ''070000000123456789abcdeffedcba99'')
      (snd (newSessionToken demo_env (new_AccessControlDAL (lit ''a@b.c'') None)
         1000 1001 demo_store))) = None"
    using demo_email by (simp add: validateSessionToken_def isIP_new tr other)
  from n v v2 have
    "fst (validateSessionToken (new_AccessControlDAL (lit ''a@b.c'') None)
      (lit ''070000000123456789abcdeffedcba98'')
      (snd (newSessionToken demo_env (new_AccessControlDAL (lit ''a@b.c'') None)
         1000 1001 demo_store))) = Some (lit ''a@b.c'')"
    and "fst (validateSessionToken (new_AccessControlDAL (lit ''x@y.z'') None)
      (lit ''070000000123456789abcdeffedcba98'')
      (snd (newSessionToken demo_env (new_AccessControlDAL (lit ''a@b.c'') None)
         1000 1001 demo_store))) = Some (lit ''a@b.c'')"
    by (simp_all add: tok)
  with demo_email demo_email2 f u show ?thesis by (intro conjI)
qed

text \<open>
  C2. For every email identity and every token string, validation looks the session hash up
  under the trimmed token (the token and the trimmed token are validated alike); it returns
  nothing, and leaves the store as it is, when there is no record for the trimmed token and
  when the record has \<open>isRevoked\<close> set; after \<open>isRevoked\<close> has been set in the store directly,
  validation of the token returns nothing.
\<close>

theorem C2_validate_absent_or_revoked:
  assumes "includes_str E (lit ''@'')"
  shows "validateSessionToken (new_AccessControlDAL E None) (trim t) s =
           validateSessionToken (new_AccessControlDAL E None) t s \<and>
         (hgetall (lit ''sessionToken:'' @ trim t) s = None \<longrightarrow>
            validateSessionToken (new_AccessControlDAL E None) t s = (None, s)) \<and>
         (\<forall>r. hgetall (lit ''sessionToken:'' @ trim t) s = Some r \<and> isRevoked r \<longrightarrow>
            validateSessionToken (new_AccessControlDAL E None) t s = (None, s)) \<and>
         fst (validateSessionToken (new_AccessControlDAL E None) t
           (revoke (lit ''sessionToken:'' @ trim t) s)) = None"
  using assms
  by (auto simp add: validateSessionToken_def isIP_new trim_idem hgetall_def revoke_def
      split: option.splits)

text \<open>
  Instances: an unknown token, a revoked token, and a token that is valid before the
  revocation and not after it; the first two with white space around them.
\<close>

theorem C2_validate_absent_or_revoked_witness:
  "includes_str (lit ''a@b.c'') (lit ''@'') \<and>
   hgetall (lit ''sessionToken:'' @ trim (lit '' nope '')) demo_store = None \<and>
   validateSessionToken (new_AccessControlDAL (lit ''a@b.c'') None) (lit '' nope '') demo_store =
     (None, demo_store) \<and>
   hgetall (lit ''sessionToken:'' @ trim (lit ''xyz '')) demo_store =
     Some \<lparr>createdAt = 2000, isRevoked = True, userEmail = lit ''a@b.c''\<rparr> \<and>
   validateSessionToken (new_AccessControlDAL (lit ''a@b.c'') None) (lit ''xyz '') demo_store =
     (None, demo_store) \<and>
   fst (validateSessionToken (new_AccessControlDAL (lit ''a@b.c'') None) (lit ''abc'') demo_store) =
     Some (lit ''a@b.c'') \<and>
   fst (validateSessionToken (new_AccessControlDAL (lit ''a@b.c'') None) (lit ''abc'')
     (revoke (lit ''sessionToken:'' @ trim (lit ''abc'')) demo_store)) = None"
proof -
  have absent: "hgetall (lit ''sessionToken:'' @ trim (lit '' nope '')) demo_store = None"
    by (simp add: hgetall_def demo_store_def lit_def trim_def isWhiteSpace_def whiteSpace_def)
  have revoked: "hgetall (lit ''sessionToken:'' @ trim (lit ''xyz '')) demo_store =
      Some \<lparr>createdAt = 2000, isRevoked = True, userEmail = lit ''a@b.c''\<rparr>"
    by (simp add: hgetall_def demo_store_def lit_def trim_def isWhiteSpace_def whiteSpace_def)
  have valid: "fst (validateSessionToken (new_AccessControlDAL (lit ''a@b.c'') None) (lit ''abc'')
      demo_store) = Some (lit ''a@b.c'')"
    by (simp add: validateSessionToken_def new_AccessControlDAL_def hgetall_def demo_store_def
        lit_def trim_def isWhiteSpace_def whiteSpace_def)
  from C2_validate_absent_or_revoked [OF demo_email, of "lit '' nope ''" demo_store] absent
  have a: "validateSessionToken (new_AccessControlDAL (lit ''a@b.c'') None) (lit '' nope '')
      demo_store = (None, demo_store)"
    by blast
  from C2_validate_absent_or_revoked [OF demo_email, of "lit ''xyz ''" demo_store] revoked
  have b: "validateSessionToken (new_AccessControlDAL (lit ''a@b.c'') None) (lit ''xyz '')
      demo_store = (None, demo_store)"
    by simp
  from C2_validate_absent_or_revoked [OF demo_email, of "lit ''abc''" demo_store]
  have c: "fst (validateSessionToken (new_AccessControlDAL (lit ''a@b.c'') None) (lit ''abc'')
      (revoke (lit ''sessionToken:'' @ trim (lit ''abc'')) demo_store)) = None"
    by blast
  from demo_email absent a revoked b valid c show ?thesis
    by (intro conjI)
qed

text \<open>
  C5. For every IP identity (a string that does not contain \<^verbatim>\<open>@\<close>), \<open>newSessionToken\<close>
  returns nothing and \<open>validateSessionToken\<close> returns nothing for every token.
\<close>

theorem C5_ip_no_session:
  assumes "\<not> includes_str E (lit ''@'')"
  shows "fst (newSessionToken e (new_AccessControlDAL E None) d now s) = None \<and>
         fst (validateSessionToken (new_AccessControlDAL E None) t s) = None"
  using assms by (simp add: newSessionToken_def validateSessionToken_def isIP_new)

text \<open>
  An instance: the identity \<^verbatim>\<open>10.0.0.1\<close> and the token of a session that exists.
\<close>

theorem C5_ip_no_session_witness:
  "\<not> includes_str (lit ''10.0.0.1'') (lit ''@'') \<and>
   fst (newSessionToken demo_env (new_AccessControlDAL (lit ''10.0.0.1'') None) 1000 1001
          demo_store) = None \<and>
   fst (validateSessionToken (new_AccessControlDAL (lit ''10.0.0.1'') None) (lit ''abc'')
          demo_store) = None"
  using C5_ip_no_session [OF demo_ip, of demo_env 1000 1001 demo_store "lit ''abc''"] demo_ip
  by simp

text \<open>
  C8. For every email identity: for every store and every token whose session record is
  present and not revoked, validation returns the \<open>userEmail\<close> of the record and changes the
  store in one place only: the time to live of the record becomes 86400 seconds, its fields
  stay as they were. On every store, with or without sessions, \<open>newSessionToken\<close> writes its
  record with the same time to live of 86400 seconds and changes nothing else.
\<close>

theorem C8_ttl:
  assumes "includes_str E (lit ''@'')"
  shows "(hashes s (lit ''sessionToken:'' @ trim t) = Some (r, ttl_before) \<and> \<not> isRevoked r \<longrightarrow>
            validateSessionToken (new_AccessControlDAL E None) t s =
              (Some (userEmail r),
               s\<lparr>hashes := (hashes s)(lit ''sessionToken:'' @ trim t \<mapsto> (r, Some 86400))\<rparr>)) \<and>
         (\<exists>token s1.
            newSessionToken e (new_AccessControlDAL E None) d now s' = (Some token, s1) \<and>
            hashes s1 = (hashes s')(lit ''sessionToken:'' @ token \<mapsto>
              (\<lparr>createdAt = now, isRevoked = False, userEmail = E\<rparr>, Some 86400)) \<and>
            zsets s1 = zsets s')"
proof -
  have "validateSessionToken (new_AccessControlDAL E None) t s =
      (Some (userEmail r),
       s\<lparr>hashes := (hashes s)(lit ''sessionToken:'' @ trim t \<mapsto> (r, Some 86400))\<rparr>)"
    if "hashes s (lit ''sessionToken:'' @ trim t) = Some (r, ttl_before)" and "\<not> isRevoked r"
    using assms that by (simp add: validateSessionToken_def isIP_new hgetall_def expire_def)
  moreover have "\<exists>token s1.
      newSessionToken e (new_AccessControlDAL E None) d now s' = (Some token, s1) \<and>
      hashes s1 = (hashes s')(lit ''sessionToken:'' @ token \<mapsto>
        (\<lparr>createdAt = now, isRevoked = False, userEmail = E\<rparr>, Some 86400)) \<and>
      zsets s1 = zsets s'"
    using assms
    by (simp add: newSessionToken_def isIP_new emailOrIP_new Let_def hashes_new zsets_new)
  ultimately show ?thesis by blast
qed

text \<open>
  An instance: the valid session of the store of the instances, whose time to live goes from
  500 to 86400, and the first session of the empty store.
\<close>

theorem C8_ttl_witness:
  "includes_str (lit ''a@b.c'') (lit ''@'') \<and>
   hashes demo_store (lit ''sessionToken:'' @ trim (lit '' abc  '')) =
     Some (\<lparr>createdAt = 1000, isRevoked = False, userEmail = lit ''a@b.c''\<rparr>, Some 500) \<and>
   validateSessionToken (new_AccessControlDAL (lit ''a@b.c'') None) (lit '' abc  '') demo_store =
     (Some (lit ''a@b.c''),
      demo_store\<lparr>hashes := (hashes demo_store)(lit ''sessionToken:abc'' \<mapsto>
        (\<lparr>createdAt = 1000, isRevoked = False, userEmail = lit ''a@b.c''\<rparr>, Some 86400))\<rparr>) \<and>
   hashes empty_store = Map.empty \<and>
   newSessionToken demo_env (new_AccessControlDAL (lit ''a@b.c'') None) 1000 1001 empty_store =
     (Some (lit ''070000000123456789abcdeffedcba98''),
      empty_store\<lparr>hashes := [lit ''sessionToken:070000000123456789abcdeffedcba98'' \<mapsto>
        (\<lparr>createdAt = 1001, isRevoked = False, userEmail = lit ''a@b.c''\<rparr>, Some 86400)]\<rparr>)"
proof -
  have tr: "trim (lit '' abc  '') = lit ''abc''"
    by (simp add: lit_def trim_def isWhiteSpace_def whiteSpace_def)
  have stored: "hashes demo_store (lit ''sessionToken:'' @ trim (lit '' abc  '')) =
      Some (\<lparr>createdAt = 1000, isRevoked = False, userEmail = lit ''a@b.c''\<rparr>, Some 500)"
    unfolding tr by (simp add: demo_store_def lit_def)
  have key: "lit ''sessionToken:abc'' = lit ''sessionToken:'' @ lit ''abc''"
    and key2: "lit ''sessionToken:070000000123456789abcdeffedcba98'' =
      lit ''sessionToken:'' @ lit ''070000000123456789abcdeffedcba98''"
    by (simp_all add: lit_def)
  note th = C8_ttl [OF demo_email, where s = demo_store and t = "lit '' abc  ''"
      and r = "\<lparr>createdAt = 1000, isRevoked = False, userEmail = lit ''a@b.c''\<rparr>"
      and ttl_before = "Some 500" and e = demo_env and d = 1000 and now = 1001 and s' = empty_store]
  from th stored
  have a: "validateSessionToken (new_AccessControlDAL (lit ''a@b.c'') None) (lit '' abc  '')
      demo_store =
      (Some (lit ''a@b.c''),
       demo_store\<lparr>hashes := (hashes demo_store)(lit ''sessionToken:abc'' \<mapsto>
         (\<lparr>createdAt = 1000, isRevoked = False, userEmail = lit ''a@b.c''\<rparr>, Some 86400))\<rparr>)"
    unfolding tr key by simp
  have e: "hashes empty_store = Map.empty"
    by (simp add: empty_store_def)
  from th obtain token s1 where
    n: "newSessionToken demo_env (new_AccessControlDAL (lit ''a@b.c'') None) 1000 1001 empty_store =
       (Some token, s1)"
    and h: "hashes s1 = (hashes empty_store)(lit ''sessionToken:'' @ token \<mapsto>
        (\<lparr>createdAt = 1001, isRevoked = False, userEmail = lit ''a@b.c''\<rparr>, Some 86400))"
    and z: "zsets s1 = zsets empty_store"
    by blast
  have "fst (newSessionToken demo_env (new_AccessControlDAL (lit ''a@b.c'') None) 1000 1001
      empty_store) = Some (lit ''070000000123456789abcdeffedcba98'')"
    using demo_email by (simp add: newSessionToken_def isIP_new emailOrIP_new Let_def demo_token)
  with n have tok: "token = lit ''070000000123456789abcdeffedcba98''" by simp
  from h z have "s1 = empty_store\<lparr>hashes :=
      [lit ''sessionToken:070000000123456789abcdeffedcba98'' \<mapsto>
        (\<lparr>createdAt = 1001, isRevoked = False, userEmail = lit ''a@b.c''\<rparr>, Some 86400)]\<rparr>"
    unfolding tok key2 e by simp
  with n tok have b: "newSessionToken demo_env (new_AccessControlDAL (lit ''a@b.c'') None)
      1000 1001 empty_store =
     (Some (lit ''070000000123456789abcdeffedcba98''),
      empty_store\<lparr>hashes := [lit ''sessionToken:070000000123456789abcdeffedcba98'' \<mapsto>
        (\<lparr>createdAt = 1001, isRevoked = False, userEmail = lit ''a@b.c''\<rparr>, Some 86400)]\<rparr>)"
    by simp
  from demo_email stored a e b show ?thesis by (intro conjI)
qed

text \<open>
  C9. For every IP identity, \<open>newSessionToken\<close> and \<open>validateSessionToken\<close> leave the whole
  store as it was: no session record, no time to live and no sorted set is touched.
\<close>

theorem C9_ip_store_unchanged:
  assumes "\<not> includes_str E (lit ''@'')"
  shows "snd (newSessionToken e (new_AccessControlDAL E None) d now s) = s \<and>
         snd (validateSessionToken (new_AccessControlDAL E None) t s) = s"
  using assms by (simp add: newSessionToken_def validateSessionToken_def isIP_new)

text \<open>
  An instance: the identity \<^verbatim>\<open>10.0.0.1\<close> on the store of the instances.
\<close>

theorem C9_ip_store_unchanged_witness:
  "\<not> includes_str (lit ''10.0.0.1'') (lit ''@'') \<and>
   snd (newSessionToken demo_env (new_AccessControlDAL (lit ''10.0.0.1'') None) 1000 1001
          demo_store) = demo_store \<and>
   snd (validateSessionToken (new_AccessControlDAL (lit ''10.0.0.1'') None) (lit ''abc'')
          demo_store) = demo_store"
  using C9_ip_store_unchanged [OF demo_ip, of demo_env 1000 1001 demo_store "lit ''abc''"] demo_ip
  by simp

text \<open>
  C10. The token of \<open>newSessionToken\<close> is the hash of the identity, a colon and the
  rendering of the clock reading of \<^verbatim>\<open>new Date()\<close>: it depends on nothing else, so two calls
  for the same identity at an equal clock reading return the same token, whatever the store
  and the reading of \<^verbatim>\<open>Date.now()\<close> are.
\<close>

theorem C10_token_deterministic:
  "fst (newSessionToken e (new_AccessControlDAL E None) d now1 s1) =
     (if includes_str E (lit ''@'')
      then Some (md5_hash e (E @ lit '':'' @ dateString e d)) else None) \<and>
   fst (newSessionToken e (new_AccessControlDAL E None) d now1 s1) =
   fst (newSessionToken e (new_AccessControlDAL E None) d now2 s2)"
  by (simp add: newSessionToken_def isIP_new emailOrIP_new Let_def)

text \<open>
  An instance: two calls for \<^verbatim>\<open>a@b.c\<close> at the clock reading 1000, on different stores.
\<close>

theorem C10_token_deterministic_witness:
  "fst (newSessionToken demo_env (new_AccessControlDAL (lit ''a@b.c'') None) 1000 1001 empty_store) =
     Some (lit ''070000000123456789abcdeffedcba98'') \<and>
   fst (newSessionToken demo_env (new_AccessControlDAL (lit ''a@b.c'') None) 1000 1002 demo_store) =
     Some (lit ''070000000123456789abcdeffedcba98'')"
proof -
  note t = C10_token_deterministic
    [of demo_env "lit ''a@b.c''" 1000 1001 empty_store 1002 demo_store]
  from t have a: "fst (newSessionToken demo_env (new_AccessControlDAL (lit ''a@b.c'') None)
      1000 1001 empty_store) = Some (lit ''070000000123456789abcdeffedcba98'')"
    using demo_email demo_token by simp
  from t have "fst (newSessionToken demo_env (new_AccessControlDAL (lit ''a@b.c'') None)
      1000 1002 demo_store) = fst (newSessionToken demo_env
      (new_AccessControlDAL (lit ''a@b.c'') None) 1000 1001 empty_store)"
    by (rule conjunct2 [THEN sym])
  with a show ?thesis by simp
qed

section \<open>Request timestamps\<close>

text \<open>
  C3. For every identity, plan and clock reading, \<open>getRequestsTimeStamp\<close> removes from the
  identity's set the elements whose score lies in the inclusive range from 0 to \<open>now\<close> minus one
  hour when the plan is \<^verbatim>\<open>free\<close>, and from 0 to \<open>now\<close> minus three hours otherwise, and it
  returns all the members that remain, in the order of the set. When the set is a set of
  timestamps (each stored with itself as score), the result is the stored timestamps outside
  that range, in strictly ascending order.
\<close>

theorem C3_prune_then_read:
  "snd (getRequestsTimeStamp dal plan now s) =
     s\<lparr>zsets := (zsets s)(lit ''limit:'' @ emailOrIP dal :=
       filter (\<lambda>e. \<not> (0 \<le> fst e \<and>
         fst e \<le> now - (if plan = lit ''free'' then 60 * 60 * 1000 else 3 * 60 * 60 * 1000)))
       (zsets s (lit ''limit:'' @ emailOrIP dal)))\<rparr> \<and>
   fst (getRequestsTimeStamp dal plan now s) =
     map snd (zsets (snd (getRequestsTimeStamp dal plan now s)) (lit ''limit:'' @ emailOrIP dal)) \<and>
   (timestamp_set (zsets s (lit ''limit:'' @ emailOrIP dal)) \<longrightarrow>
      fst (getRequestsTimeStamp dal plan now s) =
        filter (\<lambda>t. \<not> (0 \<le> t \<and>
            t \<le> now - (if plan = lit ''free'' then 60 * 60 * 1000 else 3 * 60 * 60 * 1000)))
          (map snd (zsets s (lit ''limit:'' @ emailOrIP dal))) \<and>
      sorted_wrt (<) (fst (getRequestsTimeStamp dal plan now s)))"
proof -
  let ?w = "if plan = lit ''free'' then 60 * 60 * 1000 else 3 * 60 * 60 * (1000::int)"
  let ?zs = "zsets s (lit ''limit:'' @ emailOrIP dal)"
  have asc: "fst (getRequestsTimeStamp dal plan now s) =
        filter (\<lambda>t. \<not> (0 \<le> t \<and> t \<le> now - ?w)) (map snd ?zs) \<and>
      sorted_wrt (<) (fst (getRequestsTimeStamp dal plan now s))"
    if inv: "timestamp_set ?zs"
  proof -
    from inv have eq: "list_all (\<lambda>e. fst e = snd e) ?zs" and srt: "sorted_wrt (<) (map snd ?zs)"
      by (simp_all add: timestamp_set_def)
    have r: "fst (getRequestsTimeStamp dal plan now s) =
        filter (\<lambda>t. \<not> (0 \<le> t \<and> t \<le> now - ?w)) (map snd ?zs)"
      unfolding getRequestsTimeStamp_eq fst_conv
      by (rule map_snd_filter_timestamps [OF eq])
    have "sorted_wrt (<) (fst (getRequestsTimeStamp dal plan now s))"
      unfolding r by (rule sorted_wrt_filter_less [OF srt])
    with r show ?thesis by simp
  qed
  have "snd (getRequestsTimeStamp dal plan now s) =
      s\<lparr>zsets := (zsets s)(lit ''limit:'' @ emailOrIP dal :=
        filter (\<lambda>e. \<not> (0 \<le> fst e \<and> fst e \<le> now - ?w)) ?zs)\<rparr>"
    by (simp add: getRequestsTimeStamp_eq)
  moreover have "fst (getRequestsTimeStamp dal plan now s) =
      map snd (zsets (snd (getRequestsTimeStamp dal plan now s)) (lit ''limit:'' @ emailOrIP dal))"
    by (simp add: getRequestsTimeStamp_eq)
  ultimately show ?thesis using asc by blast
qed

text \<open>
  Instances: the timestamps 1000, 2000 and 5000000, read at 5000000 on the free plan (the
  first two are more than an hour old), at 12000000 on another plan (they are more than
  three hours old), and at 5000000 on another plan (nothing is removed).
\<close>

theorem C3_prune_then_read_witness:
  "timestamp_set (zsets demo_store
      (lit ''limit:'' @ emailOrIP (new_AccessControlDAL (lit ''a@b.c'') None))) \<and>
   fst (getRequestsTimeStamp (new_AccessControlDAL (lit ''a@b.c'') None) (lit ''free'') 5000000
      demo_store) = [5000000] \<and>
   fst (getRequestsTimeStamp (new_AccessControlDAL (lit ''a@b.c'') None) (lit ''pro'') 12000000
      demo_store) = [5000000] \<and>
   fst (getRequestsTimeStamp (new_AccessControlDAL (lit ''a@b.c'') None) (lit ''pro'') 5000000
      demo_store) = [1000, 2000, 5000000] \<and>
   sorted_wrt (<) (fst (getRequestsTimeStamp (new_AccessControlDAL (lit ''a@b.c'') None)
      (lit ''pro'') 5000000 demo_store))"
proof -
  have inv: "timestamp_set (zsets demo_store
      (lit ''limit:'' @ emailOrIP (new_AccessControlDAL (lit ''a@b.c'') None)))"
    by (simp add: emailOrIP_new demo_limit timestamp_set_def)
  have plan: "lit ''pro'' \<noteq> lit ''free''"
    by (simp add: lit_def)
  note t = C3_prune_then_read [of "new_AccessControlDAL (lit ''a@b.c'') None" _ _ demo_store]
  from t [of "lit ''free''" 5000000] inv
  have a: "fst (getRequestsTimeStamp (new_AccessControlDAL (lit ''a@b.c'') None) (lit ''free'')
      5000000 demo_store) = [5000000]"
    by (simp add: emailOrIP_new demo_limit)
  from t [of "lit ''pro''" 12000000] inv
  have b: "fst (getRequestsTimeStamp (new_AccessControlDAL (lit ''a@b.c'') None) (lit ''pro'')
      12000000 demo_store) = [5000000]"
    by (simp add: emailOrIP_new demo_limit plan)
  from t [of "lit ''pro''" 5000000] inv
  have c: "fst (getRequestsTimeStamp (new_AccessControlDAL (lit ''a@b.c'') None) (lit ''pro'')
      5000000 demo_store) = [1000, 2000, 5000000]"
    and d: "sorted_wrt (<) (fst (getRequestsTimeStamp (new_AccessControlDAL (lit ''a@b.c'') None)
      (lit ''pro'') 5000000 demo_store))"
    by (simp_all add: emailOrIP_new demo_limit plan)
  from inv a b c d show ?thesis by (intro conjI)
qed

text \<open>
  C4 as it is stated fails on the boundary of the window. A request at 1000, read at 3601000
  on the free plan, is exactly one hour old and so not older than the window; the removal
  includes its upper bound \<open>now\<close> minus one hour, and the read returns the empty sequence.
\<close>

theorem C4_boundary_counterexample:
  "zsets empty_store (lit ''limit:'' @ emailOrIP (new_AccessControlDAL (lit ''a@b.c'') None)) = [] \<and>
   sorted_wrt (<) [1000 :: int] \<and>
   3601000 - 1000 \<le> (60 * 60 * 1000 :: int) \<and>
   fst (newRequests (new_AccessControlDAL (lit ''a@b.c'') None) [1000] empty_store) = [1000] \<and>
   fst (getRequestsTimeStamp (new_AccessControlDAL (lit ''a@b.c'') None) (lit ''free'') 3601000
          (snd (newRequests (new_AccessControlDAL (lit ''a@b.c'') None) [1000] empty_store))) = [] \<and>
   fst (getRequestsTimeStamp (new_AccessControlDAL (lit ''a@b.c'') None) (lit ''free'') 3601000
          (snd (newRequests (new_AccessControlDAL (lit ''a@b.c'') None) [1000] empty_store))) \<noteq> [1000]"
  by (simp add: getRequestsTimeStamp_eq newRequest_def zadd_def empty_store_def)

text \<open>
  C4, amended. For every identity whose set is empty beforehand, after \<open>newRequest\<close> calls at
  strictly increasing timestamps, \<open>getRequestsTimeStamp\<close> returns exactly those timestamps in
  ascending order, provided each of them is strictly later than \<open>now\<close> minus the plan's window
  (one hour for \<^verbatim>\<open>free\<close>, three hours otherwise). The calls return their timestamps.
\<close>

theorem C4_requests_then_read:
  assumes "zsets s (lit ''limit:'' @ emailOrIP dal) = []"
    and "sorted_wrt (<) ts"
    and "\<forall>t\<in>set ts.
           now - (if plan = lit ''free'' then 60 * 60 * 1000 else 3 * 60 * 60 * 1000) < t"
  shows "fst (newRequests dal ts s) = ts \<and>
         fst (getRequestsTimeStamp dal plan now (snd (newRequests dal ts s))) = ts"
proof -
  have "zsets (snd (newRequests dal ts s)) (lit ''limit:'' @ emailOrIP dal) = map (\<lambda>t. (t, t)) ts"
    using newRequests_zsets [of ts s dal] assms(1,2) by simp
  moreover have "filter (\<lambda>e. \<not> (0 \<le> fst e \<and> fst e \<le> now -
        (if plan = lit ''free'' then 60 * 60 * 1000 else 3 * 60 * 60 * 1000))) (map (\<lambda>t. (t, t)) ts)
      = map (\<lambda>t. (t, t)) ts"
    using assms(3) by (auto simp add: filter_id_conv)
  ultimately show ?thesis
    by (simp add: newRequests_fst getRequestsTimeStamp_eq comp_def)
qed

text \<open>
  An instance: three requests within the last hour, on the free plan.
\<close>

theorem C4_requests_then_read_witness:
  "zsets empty_store (lit ''limit:'' @ emailOrIP (new_AccessControlDAL (lit ''a@b.c'') None)) = [] \<and>
   sorted_wrt (<) [4000000, 4500000, 5000000 :: int] \<and>
   5000001 - 60 * 60 * 1000 < (4000000 :: int) \<and>
   fst (newRequests (new_AccessControlDAL (lit ''a@b.c'') None) [4000000, 4500000, 5000000]
      empty_store) = [4000000, 4500000, 5000000] \<and>
   fst (getRequestsTimeStamp (new_AccessControlDAL (lit ''a@b.c'') None) (lit ''free'') 5000001
      (snd (newRequests (new_AccessControlDAL (lit ''a@b.c'') None) [4000000, 4500000, 5000000]
         empty_store))) = [4000000, 4500000, 5000000]"
proof -
  have e: "zsets empty_store
      (lit ''limit:'' @ emailOrIP (new_AccessControlDAL (lit ''a@b.c'') None)) = []"
    by (simp add: empty_store_def)
  have s: "sorted_wrt (<) [4000000, 4500000, 5000000 :: int]"
    by simp
  have w: "\<forall>t\<in>set [4000000, 4500000, 5000000 :: int].
      5000001 - (if lit ''free'' = lit ''free'' then 60 * 60 * 1000 else 3 * 60 * 60 * 1000) < t"
    by simp
  from C4_requests_then_read [OF e s w] e s show ?thesis by simp
qed

text \<open>
  C6. For every identity and every store, \<open>resetLimit\<close> empties the identity's set, changes
  nothing else and returns the empty sequence; \<open>getRequestsTimeStamp\<close>, called on the
  resulting store, returns the empty sequence as well.
\<close>

theorem C6_reset:
  "resetLimit dal s = ([], s\<lparr>zsets := (zsets s)(lit ''limit:'' @ emailOrIP dal := [])\<rparr>) \<and>
   fst (getRequestsTimeStamp dal plan now (snd (resetLimit dal s))) = []"
  by (simp add: resetLimit_def Let_def zremrangebyrank_all zrange_all getRequestsTimeStamp_eq)

text \<open>
  An instance: the three timestamps of the store of the instances are removed.
\<close>

theorem C6_reset_witness:
  "zsets demo_store (lit ''limit:'' @ emailOrIP (new_AccessControlDAL (lit ''a@b.c'') None)) =
     [(1000, 1000), (2000, 2000), (5000000, 5000000)] \<and>
   fst (resetLimit (new_AccessControlDAL (lit ''a@b.c'') None) demo_store) = [] \<and>
   zsets (snd (resetLimit (new_AccessControlDAL (lit ''a@b.c'') None) demo_store))
     (lit ''limit:'' @ emailOrIP (new_AccessControlDAL (lit ''a@b.c'') None)) = [] \<and>
   fst (getRequestsTimeStamp (new_AccessControlDAL (lit ''a@b.c'') None) (lit ''pro'') 5000000
     (snd (resetLimit (new_AccessControlDAL (lit ''a@b.c'') None) demo_store))) = []"
proof -
  note t = C6_reset [of "new_AccessControlDAL (lit ''a@b.c'') None" demo_store "lit ''pro''" 5000000]
  have a: "zsets demo_store
      (lit ''limit:'' @ emailOrIP (new_AccessControlDAL (lit ''a@b.c'') None)) =
      [(1000, 1000), (2000, 2000), (5000000, 5000000)]"
    by (simp add: emailOrIP_new demo_limit)
  from t have r: "resetLimit (new_AccessControlDAL (lit ''a@b.c'') None) demo_store =
      ([], demo_store\<lparr>zsets := (zsets demo_store)
         (lit ''limit:'' @ emailOrIP (new_AccessControlDAL (lit ''a@b.c'') None) := [])\<rparr>)"
    by (rule conjunct1)
  have b: "fst (resetLimit (new_AccessControlDAL (lit ''a@b.c'') None) demo_store) = []"
    and c: "zsets (snd (resetLimit (new_AccessControlDAL (lit ''a@b.c'') None) demo_store))
      (lit ''limit:'' @ emailOrIP (new_AccessControlDAL (lit ''a@b.c'') None)) = []"
    unfolding r by simp_all
  from t have d: "fst (getRequestsTimeStamp (new_AccessControlDAL (lit ''a@b.c'') None)
      (lit ''pro'') 5000000
      (snd (resetLimit (new_AccessControlDAL (lit ''a@b.c'') None) demo_store))) = []"
    by (rule conjunct2)
  from a b c d show ?thesis by (intro conjI)
qed

text \<open>
  C7 as it is stated fails for the empty list of identities: the pipeline then holds no
  command, and \<^verbatim>\<open>exec\<close> raises instead of returning a list of no sequences.
\<close>

theorem C7_empty_counterexample:
  "getRequestsTimeStampsOf [] demo_store = Inl PipelineIsEmpty \<and>
   getRequestsTimeStampsOf [] demo_store \<noteq> Inr ([], demo_store)"
  by (simp add: getRequestsTimeStampsOf_def pipeline_exec_def)

text \<open>
  C7, amended. For every list of at least one identity, \<open>getRequestsTimeStampsOf\<close> returns
  one sequence per identity, in the order of the list, each being the members stored for
  that identity as they are; the store is not changed, so nothing is pruned.
\<close>

theorem C7_bulk_read:
  assumes "ids \<noteq> []"
  shows "getRequestsTimeStampsOf ids s =
           Inr (map (\<lambda>e. map snd (zsets s (lit ''limit:'' @ e))) ids, s) \<and>
         length (map (\<lambda>e. map snd (zsets s (lit ''limit:'' @ e))) ids) = length ids"
  using assms by (simp add: getRequestsTimeStampsOf_eq)

text \<open>
  An instance: three identities, one of them twice; the timestamps that are older than the
  windows are returned too.
\<close>

theorem C7_bulk_read_witness:
  "[lit ''a@b.c'', lit ''10.0.0.1'', lit ''a@b.c''] \<noteq> [] \<and>
   getRequestsTimeStampsOf [lit ''a@b.c'', lit ''10.0.0.1'', lit ''a@b.c''] demo_store =
     Inr ([[1000, 2000, 5000000], [], [1000, 2000, 5000000]], demo_store)"
proof -
  have ne: "[lit ''a@b.c'', lit ''10.0.0.1'', lit ''a@b.c''] \<noteq> []"
    by simp
  from C7_bulk_read [OF ne, of demo_store] ne show ?thesis
    by (simp add: demo_limit demo_limit_ip)
qed

end
